theory Spec2Isabelle
  imports Main "HOL-Library.Word"
begin

section \<open>Immutable lists over shared pointers (ListV7/ImmutableList.hpp)\<close>

text \<open>
  In \<^verbatim>\<open>ImmutableList.hpp\<close> a list is \<^verbatim>\<open>List<A> = std::shared_ptr<Node<A>>\<close>; a
  \<^verbatim>\<open>Node\<close> holds \<^verbatim>\<open>_datum\<close> and \<^verbatim>\<open>_tail\<close>, and the empty list is the null pointer
  \<^verbatim>\<open>EMPTY<A>\<close>. No function of that file assigns to a field of an existing node, so
  a chain of nodes is a value: the null pointer is \<open>None\<close>, a pointer to a node is \<open>Some\<close>
  of the node. Functions of this file carry the suffix \<open>_sp\<close>, since the other list
  variants of the repository use the same names. The type \<^verbatim>\<open>unsigned\<close> is a 32-bit
  word.
\<close>

datatype 'a Node = Node (datum: 'a) (tail: "'a Node option")

type_synonym 'a List = "'a Node option"

type_synonym unsigned = "32 word"

definition EMPTY :: "'a List" where
  "EMPTY = None"

text \<open>\<^verbatim>\<open>operator|\<close>: \<^verbatim>\<open>std::make_shared<Node<A>>( x, xs )\<close>.\<close>

definition cons_sp :: "'a \<Rightarrow> 'a List \<Rightarrow> 'a List" where
  "cons_sp x xs = Some (Node x xs)"

text \<open>\<^verbatim>\<open>null\<close>: \<^verbatim>\<open>return !xs;\<close>\<close>

definition null_sp :: "'a List \<Rightarrow> bool" where
  "null_sp xs = (xs = None)"

text \<open>
  \<^verbatim>\<open>head\<close> and \<^verbatim>\<open>tail\<close> throw the list they were given (\<^verbatim>\<open>throw xs;\<close>) when it is
  empty. The thrown value is the left summand.
\<close>

definition head_sp :: "'a List \<Rightarrow> 'a List + 'a" where
  "head_sp xs = (case xs of None \<Rightarrow> Inl xs | Some n \<Rightarrow> Inr (datum n))"

definition tail_sp :: "'a List \<Rightarrow> 'a List + 'a List" where
  "tail_sp xs = (case xs of None \<Rightarrow> Inl xs | Some n \<Rightarrow> Inr (tail n))"

text \<open>
  The recursive functions below test \<^verbatim>\<open>null( xs )\<close> first and call \<^verbatim>\<open>head\<close> and
  \<^verbatim>\<open>tail\<close> on a non-empty list only, where these return the fields of the node; the
  equations match on the node for that case.
\<close>

fun last_sp :: "'a List \<Rightarrow> 'a List + 'a" where
  "last_sp None = Inl None"
| "last_sp (Some (Node x ys)) = (if null_sp ys then Inr x else last_sp ys)"

fun init_sp :: "'a List \<Rightarrow> 'a List + 'a List" where
  "init_sp None = Inl None"
| "init_sp (Some (Node x ys)) =
     (if null_sp ys then Inr ys
      else (case init_sp ys of Inl e \<Rightarrow> Inl e | Inr zs \<Rightarrow> Inr (cons_sp x zs)))"

fun length_sp :: "'a List \<Rightarrow> unsigned" where
  "length_sp None = 0"
| "length_sp (Some (Node x xs)) = 1 + length_sp xs"

text \<open>\<^verbatim>\<open>operator+\<close> (append).\<close>

fun append_sp :: "'a List \<Rightarrow> 'a List \<Rightarrow> 'a List" where
  "append_sp None ys = ys"
| "append_sp (Some (Node x xs)) ys = cons_sp x (append_sp xs ys)"

text \<open>\<^verbatim>\<open>reverse\<close>: the local lambda \<^verbatim>\<open>rev\<close> with its accumulator \<^verbatim>\<open>ys\<close>.\<close>

fun rev_sp :: "'a List \<Rightarrow> 'a List \<Rightarrow> 'a List" where
  "rev_sp None ys = ys"
| "rev_sp (Some (Node x xs)) ys = rev_sp xs (cons_sp x ys)"

definition reverse_sp :: "'a List \<Rightarrow> 'a List" where
  "reverse_sp xs = rev_sp xs EMPTY"

fun take_sp :: "unsigned \<Rightarrow> 'a List \<Rightarrow> 'a List" where
  "take_sp k None = EMPTY"
| "take_sp k (Some (Node x xs)) = (if k = 0 then EMPTY else cons_sp x (take_sp (k - 1) xs))"

fun drop_sp :: "unsigned \<Rightarrow> 'a List \<Rightarrow> 'a List" where
  "drop_sp k None = None"
| "drop_sp k (Some (Node x xs)) = (if k = 0 then Some (Node x xs) else drop_sp (k - 1) xs)"

text \<open>
  The values of a chain in order, as a HOL list. This is the reading of a list that the
  properties below are stated with; it is not a function of the program.
\<close>

fun elems :: "'a List \<Rightarrow> 'a list" where
  "elems None = []"
| "elems (Some (Node x xs)) = x # elems xs"

text \<open>
  \<^verbatim>\<open>operator<<\<close>. The output stream is the string of characters written so far, and
  \<open>sh\<close> is the element type's own \<^verbatim>\<open>operator<<\<close>. \<open>put_rest_sp\<close> is the loop
  \<^verbatim>\<open>while ( (n = n->_tail) ) { os << ',' << n->_datum; }\<close>, entered with \<open>n->_tail\<close>.
\<close>

fun put_rest_sp :: "('a \<Rightarrow> string) \<Rightarrow> string \<Rightarrow> 'a List \<Rightarrow> string" where
  "put_rest_sp sh os None = os"
| "put_rest_sp sh os (Some (Node x n)) = put_rest_sp sh (os @ '','' @ sh x) n"

definition put_sp :: "('a \<Rightarrow> string) \<Rightarrow> string \<Rightarrow> 'a List \<Rightarrow> string" where
  "put_sp sh os xs =
     (case xs of
        None \<Rightarrow> os
      | Some n \<Rightarrow> put_rest_sp sh (os @ ''['' @ sh (datum n)) (tail n) @ '']'')"

section \<open>Lists that own a deep copy of their nodes (the \<^verbatim>\<open>List\<close> class with \<^verbatim>\<open>Node* _head\<close>)\<close>

text \<open>
  In this variant a \<^verbatim>\<open>List\<close> holds a raw \<^verbatim>\<open>Node* _head\<close>; its copy constructor and its
  private constructor \<^verbatim>\<open>List(Node* n)\<close> copy the whole chain, and its destructor deletes
  it, so no two lists share a node and a list is again the value of its chain. The
  functions of this file carry the suffix \<open>_dc\<close>. \<open>clone_dc\<close> is \<^verbatim>\<open>List(Node* n)\<close>.
\<close>

fun clone_dc :: "'a List \<Rightarrow> 'a List" where
  "clone_dc None = None"
| "clone_dc (Some (Node x n)) = Some (Node x (clone_dc n))"

definition head_dc :: "'a List \<Rightarrow> 'a List + 'a" where
  "head_dc xs = (case xs of None \<Rightarrow> Inl xs | Some n \<Rightarrow> Inr (datum n))"

text \<open>
  \<^verbatim>\<open>tail\<close> returns \<^verbatim>\<open>xs._head->_tail\<close>, a \<^verbatim>\<open>Node*\<close>, which is converted to the result
  by \<^verbatim>\<open>List(Node* n)\<close>.
\<close>

definition tail_dc :: "'a List \<Rightarrow> 'a List + 'a List" where
  "tail_dc xs = (case xs of None \<Rightarrow> Inl xs | Some n \<Rightarrow> Inr (clone_dc (tail n)))"

text \<open>
  \<^verbatim>\<open>init\<close>: \<^verbatim>\<open>List<U> ys( from->_datum )\<close> builds a one-node list, and the loop
  \<^verbatim>\<open>while ( (from = from->_tail) ) { to = to->_tail = new Node( from->_datum ); }\<close>
  hangs a new node below \<open>to\<close> for every further node of \<open>xs\<close>. \<open>init_loop_dc\<close> is the
  chain that the loop hangs below \<open>to\<close>, given \<open>from->_tail\<close>.
\<close>

fun init_loop_dc :: "'a List \<Rightarrow> 'a List" where
  "init_loop_dc None = None"
| "init_loop_dc (Some (Node x n)) = Some (Node x (init_loop_dc n))"

definition init_dc :: "'a List \<Rightarrow> 'a List + 'a List" where
  "init_dc xs =
     (case xs of
        None \<Rightarrow> Inl xs
      | Some from \<Rightarrow> Inr (Some (Node (datum from) (init_loop_dc (tail from)))))"

lemma elems_clone_dc: "elems (clone_dc xs) = elems xs"
  by (induction xs rule: clone_dc.induct) simp_all

lemma elems_Some: "elems (Some n) = datum n # elems (tail n)"
  by (cases n) simp

text \<open>
  \<^verbatim>\<open>List::operator[]\<close>: on the empty list it throws the constant \<^verbatim>\<open>EMPTY\<close>; otherwise it
  returns the head for index 0 and recurs on \<^verbatim>\<open>tail(*this)\<close> with \<open>k-1\<close>.
\<close>

function subscript_dc :: "'a List \<Rightarrow> unsigned \<Rightarrow> 'a List + 'a" where
  "subscript_dc xs k =
     (if xs = None then Inl EMPTY
      else if k = 0 then head_dc xs
      else (case tail_dc xs of Inl e \<Rightarrow> Inl e | Inr t \<Rightarrow> subscript_dc t (k - 1)))"
  by pat_completeness auto
termination
  by (relation "measure (\<lambda>(xs, k). length (elems xs))")
     (auto simp: tail_dc_def elems_clone_dc elems_Some split: option.splits)

declare subscript_dc.simps [simp del]

text \<open>
  \<^verbatim>\<open>take\<close> of this variant returns \<open>xs\<close>, through the copy constructor, when
  \<^verbatim>\<open>k <= 0 || !from\<close>. Otherwise it builds \<^verbatim>\<open>List<U>( from->_datum )\<close> and runs
  \<^verbatim>\<open>while ( --k > 0 && (from = from->_tail) ) { to = to->_tail = new Node( from->_datum ); }\<close>.
  \<open>take_loop_dc k n\<close> is the chain that the loop hangs below \<open>to\<close>, where \<open>k\<close> is the
  counter before its decrement and \<open>n\<close> is \<open>from->_tail\<close>.
\<close>

fun take_loop_dc :: "unsigned \<Rightarrow> 'a List \<Rightarrow> 'a List" where
  "take_loop_dc k None = None"
| "take_loop_dc k (Some (Node x n)) =
     (if 0 < k - 1 then Some (Node x (take_loop_dc (k - 1) n)) else None)"

definition take_dc :: "unsigned \<Rightarrow> 'a List \<Rightarrow> 'a List" where
  "take_dc k xs =
     (case xs of
        None \<Rightarrow> clone_dc xs
      | Some from \<Rightarrow>
          if k \<le> 0 then clone_dc xs
          else Some (Node (datum from) (take_loop_dc k (tail from))))"

text \<open>
  A further variant keeps a \<^verbatim>\<open>std::shared_ptr<Node> _head\<close> inside the class \<^verbatim>\<open>List\<close>
  and has the same \<^verbatim>\<open>operator[]\<close>; its \<^verbatim>\<open>tail\<close> returns \<^verbatim>\<open>xs._head->_tail\<close> as a list
  that shares the nodes, so nothing is copied. Its functions carry the suffix \<open>_sh\<close>.
\<close>

fun subscript_sh :: "'a List \<Rightarrow> unsigned \<Rightarrow> 'a List + 'a" where
  "subscript_sh None k = Inl EMPTY"
| "subscript_sh (Some (Node x n)) k = (if k = 0 then Inr x else subscript_sh n (k - 1))"

section \<open>Reference-counted lists (class \<^verbatim>\<open>list\<close> of ListV7/ListTransparentMove.hpp)\<close>

text \<open>
  The class \<^verbatim>\<open>list<A>\<close> holds a raw pointer \<^verbatim>\<open>node* _rep\<close> to a \<^verbatim>\<open>node\<close> with the fields
  \<^verbatim>\<open>_refs\<close>, \<^verbatim>\<open>_head\<close> and \<^verbatim>\<open>_tail\<close>, and counts references by hand with
  \<^verbatim>\<open>acquire\<close> and \<^verbatim>\<open>release\<close>. Nodes are shared between lists and some functions
  assign to \<^verbatim>\<open>_tail\<close>, so the nodes live in an explicit store: cell \<open>a\<close> of the store is
  \<open>Some\<close> of the node at address \<open>a\<close>, or \<open>None\<close> when nothing is allocated there. A
  \<^verbatim>\<open>list<A>\<close> object is the value of its \<^verbatim>\<open>_rep\<close>: \<open>None\<close> is \<^verbatim>\<open>nullptr\<close>. \<^verbatim>\<open>size_t\<close>
  is a 64-bit word. The functions carry the suffix \<open>_rc\<close>.

  Reading a pointer to a cell that holds no node has no defined behaviour; it is the
  error \<open>bad_pointer\<close>. \<^verbatim>\<open>std::domain_error\<close> carries its message.
\<close>

type_synonym addr = nat

record 'a node =
  n_refs :: "64 word"
  n_head :: 'a
  n_tail :: "addr option"

type_synonym 'a heap = "'a node option list"

datatype failure = domain_error string | thrown_list "addr option" | bad_pointer

definition lookup :: "'a heap \<Rightarrow> addr \<Rightarrow> 'a node option" where
  "lookup h a = (if a < length h then h ! a else None)"

text \<open>Sequencing of two steps, the second of which runs only if the first did not fail.\<close>

definition and_then :: "failure + 'r \<Rightarrow> ('r \<Rightarrow> failure + 's) \<Rightarrow> failure + 's" where
  "and_then m f = (case m of Inl e \<Rightarrow> Inl e | Inr r \<Rightarrow> f r)"

text \<open>\<^verbatim>\<open>acquire\<close>: \<^verbatim>\<open>if ( n ) { ++(n->_refs); } return n;\<close>\<close>

definition acquire :: "'a heap \<Rightarrow> addr option \<Rightarrow> failure + 'a heap" where
  "acquire h n =
     (case n of
        None \<Rightarrow> Inr h
      | Some a \<Rightarrow>
          (case lookup h a of
             None \<Rightarrow> Inl bad_pointer
           | Some c \<Rightarrow> Inr (h[a := Some (c\<lparr>n_refs := n_refs c + 1\<rparr>)])))"

text \<open>
  \<^verbatim>\<open>release\<close>: \<^verbatim>\<open>if ( n ) { if ( !--(n->_refs) ) { delete n; } } return n;\<close> where
  \<^verbatim>\<open>delete n\<close> runs \<^verbatim>\<open>~node() { release( _tail ); }\<close> and then frees the cell. A
  recursive call follows a count that went from 1 to 0 only, so the number of cells
  with a non-zero count is a measure.
\<close>

definition counted :: "'a node option \<Rightarrow> bool" where
  "counted c = (case c of None \<Rightarrow> False | Some n \<Rightarrow> n_refs n \<noteq> 0)"

lemma counted_update_less:
  "a < length h \<Longrightarrow> counted (h ! a) \<Longrightarrow> \<not> counted c \<Longrightarrow>
   length (filter counted (h[a := c])) < length (filter counted h)"
proof (induction h arbitrary: a)
  case Nil
  then show ?case by simp
next
  case (Cons x h)
  show ?case
  proof (cases a)
    case 0
    with Cons.prems show ?thesis by simp
  next
    case (Suc b)
    with Cons.prems have "length (filter counted (h[b := c])) < length (filter counted h)"
      by (intro Cons.IH) simp_all
    with Suc show ?thesis by simp
  qed
qed

function release :: "'a heap \<Rightarrow> addr option \<Rightarrow> failure + 'a heap" where
  "release h None = Inr h"
| "release h (Some a) =
     (case lookup h a of
        None \<Rightarrow> Inl bad_pointer
      | Some c \<Rightarrow>
          (if n_refs c - 1 = 0
           then and_then (release (h[a := Some (c\<lparr>n_refs := n_refs c - 1\<rparr>)]) (n_tail c))
                  (\<lambda>h'. Inr (h'[a := None]))
           else Inr (h[a := Some (c\<lparr>n_refs := n_refs c - 1\<rparr>)])))"
  by pat_completeness auto
termination
proof (relation "measure (\<lambda>(h, n). length (filter counted h))")
  show "wf (measure (\<lambda>(h :: 'a heap, n :: addr option). length (filter counted h)))"
    by simp
next
  fix h :: "'a heap" and a :: addr and c :: "'a node"
  assume look: "lookup h a = Some c" and zero: "n_refs c - 1 = 0"
  from look have a: "a < length h" and c: "h ! a = Some c"
    by (auto simp: lookup_def split: if_splits)
  from zero have "n_refs c \<noteq> 0"
    by auto
  with c have "counted (h ! a)"
    by (simp add: counted_def)
  moreover from zero have "\<not> counted (Some (c\<lparr>n_refs := n_refs c - 1\<rparr>))"
    by (simp add: counted_def)
  ultimately have "length (filter counted (h[a := Some (c\<lparr>n_refs := n_refs c - 1\<rparr>)]))
      < length (filter counted h)"
    using a by (intro counted_update_less)
  then show "((h[a := Some (c\<lparr>n_refs := n_refs c - 1\<rparr>)], n_tail c), (h, Some a))
      \<in> measure (\<lambda>(h, n). length (filter counted h))"
    by simp
qed

text \<open>Reading or writing through a pointer: \<^verbatim>\<open>n->...\<close> and \<^verbatim>\<open>n->_tail = t\<close>.\<close>

definition deref :: "'a heap \<Rightarrow> addr option \<Rightarrow> failure + 'a node" where
  "deref h n =
     (case n of
        None \<Rightarrow> Inl bad_pointer
      | Some a \<Rightarrow> (case lookup h a of None \<Rightarrow> Inl bad_pointer | Some c \<Rightarrow> Inr c))"

definition set_tail :: "'a heap \<Rightarrow> addr option \<Rightarrow> addr option \<Rightarrow> failure + 'a heap" where
  "set_tail h n t =
     (case n of
        None \<Rightarrow> Inl bad_pointer
      | Some a \<Rightarrow>
          (case lookup h a of
             None \<Rightarrow> Inl bad_pointer
           | Some c \<Rightarrow> Inr (h[a := Some (c\<lparr>n_tail := t\<rparr>)])))"

text \<open>
  A function of the source that takes a \<^verbatim>\<open>list<A>\<close> by value is modelled as it runs
  when called with a named list: the parameter is copy-constructed
  (\<^verbatim>\<open>list( list const& xs ) : _rep( acquire( xs._rep ) )\<close>), the body runs, and the
  parameter is destroyed (\<^verbatim>\<open>~list() { release( _rep ); }\<close>). A thrown exception ends the
  run; the store is not part of the failure.
\<close>

definition null_rc :: "'a heap \<Rightarrow> addr option \<Rightarrow> failure + 'a heap \<times> bool" where
  "null_rc h xs =
     and_then (acquire h xs) (\<lambda>h1.
     and_then (release h1 xs) (\<lambda>h2. Inr (h2, xs = None)))"

definition head_rc :: "'a heap \<Rightarrow> addr option \<Rightarrow> failure + 'a heap \<times> 'a" where
  "head_rc h xs =
     and_then (acquire h xs) (\<lambda>h1.
     and_then (null_rc h1 xs) (\<lambda>(h2, b).
       if b then Inl (domain_error ''prelude::head: empty list'')
       else and_then (deref h2 xs) (\<lambda>c.
            and_then (release h2 xs) (\<lambda>h3. Inr (h3, n_head c)))))"

text \<open>\<^verbatim>\<open>tail\<close> returns \<^verbatim>\<open>list<A>( xs._rep->_tail )\<close>, which acquires the node it is given.\<close>

definition tail_rc :: "'a heap \<Rightarrow> addr option \<Rightarrow> failure + 'a heap \<times> addr option" where
  "tail_rc h xs =
     and_then (acquire h xs) (\<lambda>h1.
     and_then (null_rc h1 xs) (\<lambda>(h2, b).
       if b then Inl (domain_error ''prelude::tail: empty list'')
       else and_then (deref h2 xs) (\<lambda>c.
            and_then (acquire h2 (n_tail c)) (\<lambda>h3.
            and_then (release h3 xs) (\<lambda>h4. Inr (h4, n_tail c))))))"

text \<open>
  The private constructor \<^verbatim>\<open>list( A x, list const& xs )\<close>:
  \<^verbatim>\<open>_rep( acquire( new node( x, xs._rep ) ) )\<close>, where the node's constructor sets
  \<^verbatim>\<open>_refs( 0 ), _head( x ), _tail( acquire( xs ) )\<close>. The new node is put at the end of
  the store.
\<close>

definition list_cons :: "'a heap \<Rightarrow> 'a \<Rightarrow> addr option \<Rightarrow> failure + 'a heap \<times> addr option" where
  "list_cons h x xs =
     and_then (acquire h xs) (\<lambda>h1.
     and_then (acquire (h1 @ [Some \<lparr>n_refs = 0, n_head = x, n_tail = xs\<rparr>]) (Some (length h1)))
       (\<lambda>h2. Inr (h2, Some (length h1))))"

text \<open>
  \<^verbatim>\<open>cons\<close> and \<^verbatim>\<open>operator|\<close>: \<^verbatim>\<open>return list<A>( x, xs );\<close>. \<open>cons_body_rc\<close> is the call
  whose argument is a temporary, which becomes the parameter without a copy.
\<close>

definition cons_body_rc :: "'a heap \<Rightarrow> 'a \<Rightarrow> addr option \<Rightarrow> failure + 'a heap \<times> addr option" where
  "cons_body_rc h x xs =
     and_then (list_cons h x xs) (\<lambda>(h1, r).
     and_then (release h1 xs) (\<lambda>h2. Inr (h2, r)))"

definition cons_rc :: "'a heap \<Rightarrow> 'a \<Rightarrow> addr option \<Rightarrow> failure + 'a heap \<times> addr option" where
  "cons_rc h x xs = and_then (acquire h xs) (\<lambda>h1. cons_body_rc h1 x xs)"

text \<open>
  \<^verbatim>\<open>last\<close> and \<^verbatim>\<open>init\<close> recur along the chain, which need not end in a store that
  holds a cycle: they take fuel, and \<open>None\<close> is a run that did not finish within it. The
  locals \<open>ys\<close> and \<open>xs\<close> are destroyed on return. In \<^verbatim>\<open>head( xs ) | init( ys )\<close> the left
  operand is evaluated first.
\<close>

fun last_rc :: "nat \<Rightarrow> 'a heap \<Rightarrow> addr option \<Rightarrow> (failure + 'a heap \<times> 'a) option" where
  "last_rc 0 h xs = None"
| "last_rc (Suc fuel) h xs =
     (case and_then (acquire h xs) (\<lambda>h1. null_rc h1 xs) of
        Inl e \<Rightarrow> Some (Inl e)
      | Inr (h2, b) \<Rightarrow>
          if b then Some (Inl (domain_error ''prelude::last: empty list''))
          else
            (case and_then (tail_rc h2 xs) (\<lambda>(h3, ys).
                  and_then (null_rc h3 ys) (\<lambda>(h4, b'). Inr (h4, ys, b'))) of
               Inl e \<Rightarrow> Some (Inl e)
             | Inr (h4, ys, b') \<Rightarrow>
                 (case (if b' then Some (head_rc h4 xs) else last_rc fuel h4 ys) of
                    None \<Rightarrow> None
                  | Some r \<Rightarrow>
                      Some (and_then r (\<lambda>(h5, x).
                            and_then (release h5 ys) (\<lambda>h6.
                            and_then (release h6 xs) (\<lambda>h7. Inr (h7, x))))))))"

fun init_rc :: "nat \<Rightarrow> 'a heap \<Rightarrow> addr option \<Rightarrow> (failure + 'a heap \<times> addr option) option" where
  "init_rc 0 h xs = None"
| "init_rc (Suc fuel) h xs =
     (case and_then (acquire h xs) (\<lambda>h1. null_rc h1 xs) of
        Inl e \<Rightarrow> Some (Inl e)
      | Inr (h2, b) \<Rightarrow>
          if b then Some (Inl (domain_error ''prelude::init: empty list''))
          else
            (case and_then (tail_rc h2 xs) (\<lambda>(h3, ys).
                  and_then (null_rc h3 ys) (\<lambda>(h4, b'). Inr (h4, ys, b'))) of
               Inl e \<Rightarrow> Some (Inl e)
             | Inr (h4, ys, b') \<Rightarrow>
                 if b' then Some (and_then (release h4 xs) (\<lambda>h5. Inr (h5, ys)))
                 else
                   (case head_rc h4 xs of
                      Inl e \<Rightarrow> Some (Inl e)
                    | Inr (h5, x) \<Rightarrow>
                        (case init_rc fuel h5 ys of
                           None \<Rightarrow> None
                         | Some r \<Rightarrow>
                             Some (and_then r (\<lambda>(h6, zs).
                                   and_then (cons_body_rc h6 x zs) (\<lambda>(h7, res).
                                   and_then (release h7 ys) (\<lambda>h8.
                                   and_then (release h8 xs) (\<lambda>h9. Inr (h9, res))))))))))"

text \<open>
  Copy assignment \<^verbatim>\<open>list& operator= ( list const& xs )\<close>:
  \<^verbatim>\<open>if ( _rep != xs._rep ) { release( _rep ); _rep = acquire( xs._rep ); } return *this;\<close>
  The result is the store and the new \<^verbatim>\<open>_rep\<close> of the assigned list.
\<close>

definition copy_assign_rc ::
  "'a heap \<Rightarrow> addr option \<Rightarrow> addr option \<Rightarrow> failure + 'a heap \<times> addr option" where
  "copy_assign_rc h this xs =
     (if this \<noteq> xs
      then and_then (release h this) (\<lambda>h1.
           and_then (acquire h1 xs) (\<lambda>h2. Inr (h2, xs)))
      else Inr (h, this))"

text \<open>
  \<^verbatim>\<open>operator+ ( list<A> && xs, list<A> const& ys )\<close>. \<open>walk_rc\<close> is the loop
  \<^verbatim>\<open>while ( to->_tail ) { to = to->_tail; }\<close>. The result is the store, the \<^verbatim>\<open>_rep\<close> of
  the returned list, and the \<^verbatim>\<open>_rep\<close> that is left in \<open>xs\<close>.
\<close>

fun walk_rc :: "nat \<Rightarrow> 'a heap \<Rightarrow> addr option \<Rightarrow> (failure + addr option) option" where
  "walk_rc 0 h to = None"
| "walk_rc (Suc fuel) h to =
     (case deref h to of
        Inl e \<Rightarrow> Some (Inl e)
      | Inr c \<Rightarrow> if n_tail c \<noteq> None then walk_rc fuel h (n_tail c) else Some (Inr to))"

definition append_move_rc ::
  "nat \<Rightarrow> 'a heap \<Rightarrow> addr option \<Rightarrow> addr option \<Rightarrow>
   (failure + 'a heap \<times> addr option \<times> addr option) option" where
  "append_move_rc fuel h xs ys =
     (case null_rc h xs of
        Inl e \<Rightarrow> Some (Inl e)
      | Inr (h1, b) \<Rightarrow>
          if b then Some (and_then (acquire h1 ys) (\<lambda>h2. Inr (h2, ys, xs)))
          else
            (case walk_rc fuel h1 xs of
               None \<Rightarrow> None
             | Some r \<Rightarrow>
                 Some (and_then r (\<lambda>to.
                       and_then (acquire h1 ys) (\<lambda>h2.
                       and_then (set_tail h2 to ys) (\<lambda>h3. Inr (h3, xs, None)))))))"

text \<open>
  An earlier draft of the reference-counted list has the same \<^verbatim>\<open>acquire\<close>, \<^verbatim>\<open>release\<close>
  and \<^verbatim>\<open>null\<close>, and the move version \<^verbatim>\<open>append( List<A> && xs, List<A> const& ys )\<close>. Its
  loop is \<^verbatim>\<open>while ( (to = to->_tail) ) {}\<close>, and it stores \<^verbatim>\<open>ys._rep\<close> without
  acquiring it: \<^verbatim>\<open>to->_tail = ys._rep;\<close>. The functions of the draft carry the suffix
  \<open>_draft\<close>.
\<close>

fun walk_off_draft :: "nat \<Rightarrow> 'a heap \<Rightarrow> addr option \<Rightarrow> (failure + addr option) option" where
  "walk_off_draft 0 h to = None"
| "walk_off_draft (Suc fuel) h to =
     (case deref h to of
        Inl e \<Rightarrow> Some (Inl e)
      | Inr c \<Rightarrow>
          if n_tail c \<noteq> None then walk_off_draft fuel h (n_tail c) else Some (Inr (n_tail c)))"

definition append_move_draft ::
  "nat \<Rightarrow> 'a heap \<Rightarrow> addr option \<Rightarrow> addr option \<Rightarrow>
   (failure + 'a heap \<times> addr option \<times> addr option) option" where
  "append_move_draft fuel h xs ys =
     (case null_rc h xs of
        Inl e \<Rightarrow> Some (Inl e)
      | Inr (h1, b) \<Rightarrow>
          if b then Some (and_then (acquire h1 ys) (\<lambda>h2. Inr (h2, ys, xs)))
          else
            (case walk_off_draft fuel h1 xs of
               None \<Rightarrow> None
             | Some r \<Rightarrow>
                 Some (and_then r (\<lambda>to.
                       and_then (set_tail h1 to ys) (\<lambda>h2. Inr (h2, xs, None))))))"

text \<open>\<^verbatim>\<open>operator<<\<close> of the class \<^verbatim>\<open>list\<close>, with the stream and \<open>sh\<close> as above.\<close>

fun put_rest_rc ::
  "nat \<Rightarrow> ('a \<Rightarrow> string) \<Rightarrow> string \<Rightarrow> 'a heap \<Rightarrow> addr option \<Rightarrow> (failure + string) option" where
  "put_rest_rc fuel sh os h None = Some (Inr os)"
| "put_rest_rc 0 sh os h (Some a) = None"
| "put_rest_rc (Suc fuel) sh os h (Some a) =
     (case lookup h a of
        None \<Rightarrow> Some (Inl bad_pointer)
      | Some c \<Rightarrow> put_rest_rc fuel sh (os @ '','' @ sh (n_head c)) h (n_tail c))"

definition put_rc ::
  "nat \<Rightarrow> ('a \<Rightarrow> string) \<Rightarrow> string \<Rightarrow> 'a heap \<Rightarrow> addr option \<Rightarrow> (failure + string) option" where
  "put_rc fuel sh os h xs =
     (case xs of
        None \<Rightarrow> Some (Inr (os @ ''['' @ '']''))
      | Some a \<Rightarrow>
          (case lookup h a of
             None \<Rightarrow> Some (Inl bad_pointer)
           | Some c \<Rightarrow>
               (case put_rest_rc fuel sh (os @ ''['' @ sh (n_head c)) h (n_tail c) of
                  None \<Rightarrow> None
                | Some r \<Rightarrow> Some (and_then r (\<lambda>os'. Inr (os' @ '']''))))))"

text \<open>
  The values that a list holds in a store, in order: the reading of a \<^verbatim>\<open>list\<close> that the
  properties are stated with; it is not a function of the program. \<open>None\<close> is a chain
  that does not end within the fuel or that leaves the store.
\<close>

fun values_rc :: "nat \<Rightarrow> 'a heap \<Rightarrow> addr option \<Rightarrow> 'a list option" where
  "values_rc fuel h None = Some []"
| "values_rc 0 h (Some a) = None"
| "values_rc (Suc fuel) h (Some a) =
     (case lookup h a of
        None \<Rightarrow> None
      | Some c \<Rightarrow> map_option ((#) (n_head c)) (values_rc fuel h (n_tail c)))"

section \<open>Shared-pointer lists with moves (first part of ListV7/ListTransparentMove.hpp)\<close>

text \<open>
  The first part of \<^verbatim>\<open>ListTransparentMove.hpp\<close> is the shared-pointer list again, with
  \<^verbatim>\<open>std::move\<close> applied to most results. Its \<^verbatim>\<open>tail\<close> is
  \<^verbatim>\<open>if ( null( xs ) ) { throw xs; } return std::move(xs->_tail);\<close>. The result is
  move-constructed from the field \<^verbatim>\<open>_tail\<close> of the node, and a \<^verbatim>\<open>std::shared_ptr\<close> that
  was moved from is null: the function writes to the node. The nodes are therefore kept
  in the store of the previous section, where \<open>n_refs\<close> is the use count of the shared
  pointer and \<open>n_head\<close> is \<^verbatim>\<open>_datum\<close>. A move changes no use count.
\<close>

definition tail_mv :: "'a heap \<Rightarrow> addr option \<Rightarrow> failure + 'a heap \<times> addr option" where
  "tail_mv h xs =
     (case xs of
        None \<Rightarrow> Inl (thrown_list xs)
      | Some a \<Rightarrow>
          (case lookup h a of
             None \<Rightarrow> Inl bad_pointer
           | Some c \<Rightarrow> Inr (h[a := Some (c\<lparr>n_tail := None\<rparr>)], n_tail c)))"

section \<open>Comma-separated text\<close>

text \<open>
  The strings of a list joined by commas: what a rendering is compared with. It is not a
  function of the program.
\<close>

fun comma_sep :: "string list \<Rightarrow> string" where
  "comma_sep [] = []"
| "comma_sep [s] = s"
| "comma_sep (s # t # ss) = s @ '','' @ comma_sep (t # ss)"

section \<open>Basic facts about the store\<close>

lemma and_then_Inr [simp]: "and_then (Inr r) f = f r"
  by (simp add: and_then_def)

lemma and_then_Inl [simp]: "and_then (Inl e) f = Inl e"
  by (simp add: and_then_def)

lemma acquire_None [simp]: "acquire h None = Inr h"
  by (simp add: acquire_def)

lemma null_rc_None [simp]: "null_rc h None = Inr (h, True)"
  by (simp add: null_rc_def)

lemma lookup_update_same [simp]: "a < length h \<Longrightarrow> lookup (h[a := c]) a = c"
  by (simp add: lookup_def)

lemma lookup_update_other [simp]: "a \<noteq> b \<Longrightarrow> lookup (h[a := c]) b = lookup h b"
  by (simp add: lookup_def)

lemma lookup_SomeD: "lookup h a = Some c \<Longrightarrow> a < length h \<and> h ! a = Some c"
  by (auto simp: lookup_def split: if_splits)

section \<open>Properties of the shared-pointer lists\<close>

text \<open>On a non-empty list \<^verbatim>\<open>head\<close> and \<^verbatim>\<open>tail\<close> return the fields of the first node.\<close>

lemma head_tail_sp_nonempty:
  "\<not> null_sp xs \<Longrightarrow> \<exists>x t. xs = Some (Node x t) \<and> head_sp xs = Inr x \<and> tail_sp xs = Inr t"
  by (cases xs rule: elems.cases) (simp_all add: null_sp_def head_sp_def tail_sp_def)

lemma elems_inject: "elems xs = elems ys \<Longrightarrow> xs = ys"
proof (induction xs arbitrary: ys rule: elems.induct)
  case 1
  then show ?case by (cases ys rule: elems.cases) simp_all
next
  case (2 x xs)
  then show ?case by (cases ys rule: elems.cases) auto
qed

lemma elems_cons_sp [simp]: "elems (cons_sp x xs) = x # elems xs"
  by (simp add: cons_sp_def)

lemma elems_EMPTY [simp]: "elems EMPTY = []"
  by (simp add: EMPTY_def)

lemma elems_rev_sp: "elems (rev_sp xs ys) = rev (elems xs) @ elems ys"
  by (induction xs ys rule: rev_sp.induct) simp_all

lemma elems_reverse_sp: "elems (reverse_sp xs) = rev (elems xs)"
  by (simp add: reverse_sp_def elems_rev_sp)

lemma length_sp_elems: "length_sp xs = of_nat (length (elems xs))"
  by (induction xs rule: length_sp.induct) simp_all

lemma elems_append_sp: "elems (append_sp xs ys) = elems xs @ elems ys"
  by (induction xs ys rule: append_sp.induct) simp_all

lemma unat_pred: "k \<noteq> 0 \<Longrightarrow> unat k = Suc (unat (k - 1))" for k :: unsigned
  by (metis Suc_pred' unat_gt_0 unat_minus_one)

lemma elems_take_sp: "elems (take_sp k xs) = take (unat k) (elems xs)"
proof (induction k xs rule: take_sp.induct)
  case (1 k)
  then show ?case by simp
next
  case (2 k x xs)
  show ?case
  proof (cases "k = 0")
    case True
    then show ?thesis by simp
  next
    case False
    then have "unat k = Suc (unat (k - 1))"
      by (rule unat_pred)
    with False 2 show ?thesis by simp
  qed
qed

lemma elems_drop_sp: "elems (drop_sp k xs) = drop (unat k) (elems xs)"
proof (induction k xs rule: drop_sp.induct)
  case (1 k)
  then show ?case by simp
next
  case (2 k x xs)
  show ?case
  proof (cases "k = 0")
    case True
    then show ?thesis by simp
  next
    case False
    then have "unat k = Suc (unat (k - 1))"
      by (rule unat_pred)
    with False 2 show ?thesis by simp
  qed
qed

text \<open>
  C8: for every list \<open>xs\<close>, \<^verbatim>\<open>length(reverse(xs)) == length(xs)\<close>, and
  \<^verbatim>\<open>reverse(reverse(xs))\<close> is structurally equal to \<open>xs\<close>.
\<close>

theorem reverse_sp_length_involution:
  "length_sp (reverse_sp xs) = length_sp xs \<and> reverse_sp (reverse_sp xs) = xs"
proof
  show "length_sp (reverse_sp xs) = length_sp xs"
    by (simp add: length_sp_elems elems_reverse_sp)
  show "reverse_sp (reverse_sp xs) = xs"
    by (rule elems_inject) (simp add: elems_reverse_sp)
qed

lemma append_take_drop_sp: "append_sp (take_sp k xs) (drop_sp k xs) = xs"
  by (rule elems_inject) (simp add: elems_append_sp elems_take_sp elems_drop_sp)

text \<open>
  C4: for every list \<open>xs\<close> and every \<open>k\<close> with \<open>0 \<le> k \<le> length(xs)\<close>,
  \<^verbatim>\<open>append(take(k, xs), drop(k, xs))\<close> is structurally equal to \<open>xs\<close>. The bound is
  stated with the program's own \<^verbatim>\<open>length\<close>; \<open>k\<close> is unsigned, so \<open>0 \<le> k\<close> always holds.
\<close>

theorem take_drop_append_sp:
  "k \<le> length_sp xs \<Longrightarrow> append_sp (take_sp k xs) (drop_sp k xs) = xs"
  by (rule append_take_drop_sp)

theorem take_drop_append_sp_witness:
  "(1 :: unsigned) \<le> length_sp (Some (Node (1::int) (Some (Node 2 None))))
   \<and> append_sp (take_sp 1 (Some (Node (1::int) (Some (Node 2 None)))))
        (drop_sp 1 (Some (Node 1 (Some (Node 2 None)))))
      = Some (Node 1 (Some (Node 2 None)))"
proof -
  have le: "(1 :: unsigned) \<le> length_sp (Some (Node (1::int) (Some (Node 2 None))))"
    by simp
  from le take_drop_append_sp [OF le] show ?thesis
    by simp
qed

text \<open>
  C6, as stated, says that \<^verbatim>\<open>take(k, xs)\<close> is empty when \<open>k\<close> exceeds the length of
  \<open>xs\<close>. It is not: \<^verbatim>\<open>take(3, [1])\<close> is \<open>[1]\<close>.
\<close>

theorem take_sp_beyond_length_counterexample:
  "length_sp (Some (Node (1::int) None)) < 3 \<and> take_sp 3 (Some (Node (1::int) None)) \<noteq> EMPTY"
  by (simp add: EMPTY_def cons_sp_def)

lemma take_sp_all: "length (elems xs) \<le> unat k \<Longrightarrow> take_sp k xs = xs"
  by (rule elems_inject) (simp add: elems_take_sp)

lemma take_loop_dc_take_sp: "k \<noteq> 0 \<Longrightarrow> take_loop_dc k xs = take_sp (k - 1) xs"
proof (induction k xs rule: take_loop_dc.induct)
  case (1 k)
  then show ?case by (simp add: EMPTY_def)
next
  case (2 k x n)
  then show ?case
    by (auto simp: EMPTY_def cons_sp_def word_greater_zero_iff)
qed

lemma take_dc_take_sp: "k \<noteq> 0 \<Longrightarrow> take_dc k xs = take_sp k xs"
  by (cases xs rule: elems.cases)
     (simp_all add: take_dc_def EMPTY_def cons_sp_def take_loop_dc_take_sp)

text \<open>
  For \<open>k == 0\<close> the deep-copy variant returns its argument where the shared-pointer
  variant returns the empty list.
\<close>

lemma take_dc_zero_returns_argument:
  "take_dc 0 (Some (Node (1::int) None)) = Some (Node 1 None)
   \<and> take_sp 0 (Some (Node (1::int) None)) = EMPTY"
  by (simp add: take_dc_def)

text \<open>
  C6, amended: \<^verbatim>\<open>take(k, xs)\<close> holds the first \<open>k\<close> elements of \<open>xs\<close> in order, or all
  of them when \<open>xs\<close> has fewer; it is the empty list whenever \<open>k == 0\<close> or \<open>xs\<close> is
  empty; and when \<open>k\<close> is at least the number of elements of \<open>xs\<close> it is structurally
  equal to \<open>xs\<close>. This is \<^verbatim>\<open>take\<close> of \<^verbatim>\<open>ImmutableList.hpp\<close>; for \<open>k \<noteq> 0\<close> the
  deep-copy variant returns the same list.
\<close>

theorem take_sp_prefix:
  "elems (take_sp k xs) = take (unat k) (elems xs)
   \<and> (k = 0 \<or> null_sp xs \<longrightarrow> take_sp k xs = EMPTY)
   \<and> (length (elems xs) \<le> unat k \<longrightarrow> take_sp k xs = xs)
   \<and> (k \<noteq> 0 \<longrightarrow> take_dc k xs = take_sp k xs)"
proof (intro conjI impI)
  show "elems (take_sp k xs) = take (unat k) (elems xs)"
    by (rule elems_take_sp)
  show "take_sp k xs = EMPTY" if "k = 0 \<or> null_sp xs"
    using that by (cases xs rule: elems.cases) (auto simp: null_sp_def)
  show "take_sp k xs = xs" if "length (elems xs) \<le> unat k"
    using that by (rule take_sp_all)
  show "take_dc k xs = take_sp k xs" if "k \<noteq> 0"
    using that by (rule take_dc_take_sp)
qed

theorem take_sp_prefix_witness:
  "((0 :: unsigned) = 0 \<or> null_sp (Some (Node (1::int) None)))
   \<and> take_sp 0 (Some (Node (1::int) None)) = EMPTY
   \<and> length (elems (Some (Node (1::int) None))) \<le> unat (3 :: unsigned)
   \<and> take_sp 3 (Some (Node (1::int) None)) = Some (Node 1 None)
   \<and> (3 :: unsigned) \<noteq> 0
   \<and> take_dc 3 (Some (Node (1::int) None)) = Some (Node 1 None)
   \<and> elems (take_sp 1 (Some (Node (1::int) (Some (Node 2 None))))) = [1]"
  using take_sp_prefix [of 0 "Some (Node (1::int) None)"]
    take_sp_prefix [of 3 "Some (Node (1::int) None)"]
    take_sp_prefix [of 1 "Some (Node (1::int) (Some (Node 2 None)))"]
  by simp

text \<open>
  \<^verbatim>\<open>init\<close> of \<^verbatim>\<open>ImmutableList.hpp\<close> returns all elements but the last of a non-empty
  list.
\<close>

lemma init_sp_butlast:
  "xs \<noteq> None \<Longrightarrow> \<exists>ys. init_sp xs = Inr ys \<and> elems ys = butlast (elems xs)"
proof (induction xs rule: init_sp.induct)
  case 1
  then show ?case by simp
next
  case (2 x ys)
  show ?case
  proof (cases ys)
    case None
    then show ?thesis by (simp add: null_sp_def)
  next
    case (Some m)
    with 2 obtain zs where "init_sp ys = Inr zs" "elems zs = butlast (elems ys)"
      by (auto simp: null_sp_def)
    with Some show ?thesis
      by (simp add: null_sp_def elems_Some)
  qed
qed

text \<open>\<^verbatim>\<open>init\<close> of the deep-copy variant returns a copy of the whole list.\<close>

lemma init_loop_dc_id: "init_loop_dc xs = xs"
  by (induction xs rule: init_loop_dc.induct) simp_all

lemma init_dc_copies_all: "init_dc (Some n) = Inr (Some n)"
  by (cases n) (simp add: init_dc_def init_loop_dc_id)

text \<open>
  C7: for every non-empty list \<open>xs\<close>, \<^verbatim>\<open>init(xs)\<close> is the list of all elements of \<open>xs\<close>
  except the last. The deep-copy variant does not do that: on \<open>[1, 2]\<close> its \<^verbatim>\<open>init\<close>
  returns \<open>[1, 2]\<close>, where \<^verbatim>\<open>init\<close> of \<^verbatim>\<open>ImmutableList.hpp\<close> returns \<open>[1]\<close>.
\<close>

theorem init_dc_keeps_last:
  "init_dc (Some (Node (1::int) (Some (Node 2 None)))) = Inr (Some (Node 1 (Some (Node 2 None))))
   \<and> init_sp (Some (Node (1::int) (Some (Node 2 None)))) = Inr (Some (Node 1 None))"
  by (simp add: init_dc_def null_sp_def cons_sp_def)

section \<open>Rendering\<close>

lemma put_rest_sp_elems:
  "put_rest_sp sh os xs = os @ concat (map (\<lambda>x. '','' @ sh x) (elems xs))"
  by (induction sh os xs rule: put_rest_sp.induct) simp_all

lemma comma_sep_Cons: "comma_sep (s # ss) = s @ concat (map (\<lambda>t. '','' @ t) ss)"
  by (induction ss arbitrary: s) simp_all

text \<open>
  On a non-empty list, \<^verbatim>\<open>operator<<\<close> of \<^verbatim>\<open>ImmutableList.hpp\<close> writes \<open>[\<close>, the values
  separated by commas in their order, and \<open>]\<close>.
\<close>

lemma put_sp_nonempty:
  "xs \<noteq> None \<Longrightarrow> put_sp sh os xs = os @ ''['' @ comma_sep (map sh (elems xs)) @ '']''"
  by (cases xs)
     (auto simp: put_sp_def put_rest_sp_elems elems_Some comma_sep_Cons map_concat comp_def)

text \<open>
  \<^verbatim>\<open>operator<<\<close> of the class \<^verbatim>\<open>list\<close> writes \<open>[\<close>, the values separated by commas in
  their order, and \<open>]\<close>, for every list whose chain ends, the empty list included.
\<close>

lemma values_rc_more_fuel:
  "values_rc fuel h n = Some vs \<Longrightarrow> values_rc (Suc fuel) h n = Some vs"
proof (induction fuel h n arbitrary: vs rule: values_rc.induct)
  case (1 fuel h)
  then show ?case by simp
next
  case (2 h a)
  then show ?case by simp
next
  case (3 fuel h a)
  then show ?case
    by (auto split: option.splits)
qed

lemma put_rest_rc_values:
  "values_rc fuel h n = Some vs \<Longrightarrow>
   put_rest_rc fuel sh os h n = Some (Inr (os @ concat (map (\<lambda>x. '','' @ sh x) vs)))"
proof (induction fuel h n arbitrary: vs os rule: values_rc.induct)
  case (1 fuel h)
  then show ?case by simp
next
  case (2 h a)
  then show ?case by simp
next
  case (3 fuel h a)
  then show ?case
    by (auto split: option.splits)
qed

lemma put_rc_values:
  assumes "values_rc fuel h xs = Some vs"
  shows "put_rc fuel sh os h xs = Some (Inr (os @ ''['' @ comma_sep (map sh vs) @ '']''))"
proof (cases xs)
  case None
  with assms show ?thesis
    by (simp add: put_rc_def)
next
  case (Some a)
  with assms obtain f where f: "fuel = Suc f"
    by (cases fuel) simp_all
  with assms Some obtain c ws where c: "lookup h a = Some c"
    and ws: "values_rc f h (n_tail c) = Some ws" and vs: "vs = n_head c # ws"
    by (auto split: option.splits)
  from ws have "values_rc fuel h (n_tail c) = Some ws"
    unfolding f by (rule values_rc_more_fuel)
  then have "put_rest_rc fuel sh (os @ ''['' @ sh (n_head c)) h (n_tail c)
      = Some (Inr ((os @ ''['' @ sh (n_head c)) @ concat (map (\<lambda>x. '','' @ sh x) ws)))"
    by (rule put_rest_rc_values)
  with Some c vs show ?thesis
    by (simp add: put_rc_def comma_sep_Cons map_concat comp_def)
qed

text \<open>
  C5: rendering a list writes \<open>[\<close>, the values separated by commas, and \<open>]\<close>, and the
  empty list renders as the two characters \<open>[]\<close>. \<^verbatim>\<open>operator<<\<close> of
  \<^verbatim>\<open>ImmutableList.hpp\<close> writes nothing at all for the empty list, where \<^verbatim>\<open>operator<<\<close>
  of the class \<^verbatim>\<open>list\<close> writes \<open>[]\<close>.
\<close>

theorem put_sp_empty_writes_nothing:
  "put_sp sh [] EMPTY = [] \<and> put_rc fuel sh [] h None = Some (Inr ''[]'')"
  by (simp add: put_sp_def put_rc_def EMPTY_def)

section \<open>Indexed access\<close>

lemma subscript_dc_elems:
  "subscript_dc xs k = (if unat k < length (elems xs) then Inr (elems xs ! unat k) else Inl EMPTY)"
proof (induction xs k rule: subscript_dc.induct)
  case (1 xs k)
  show ?case
  proof (cases xs)
    case None
    then show ?thesis by (simp add: subscript_dc.simps)
  next
    case (Some n)
    show ?thesis
    proof (cases "k = 0")
      case True
      with Some show ?thesis
        by (simp add: subscript_dc.simps head_dc_def elems_Some)
    next
      case False
      then have k: "unat k = Suc (unat (k - 1))"
        by (rule unat_pred)
      have t: "tail_dc xs = Inr (clone_dc (tail n))"
        using Some by (simp add: tail_dc_def)
      from Some False t have "subscript_dc xs k = subscript_dc (clone_dc (tail n)) (k - 1)"
        by (subst subscript_dc.simps) simp
      also have "\<dots> = (if unat (k - 1) < length (elems (clone_dc (tail n)))
          then Inr (elems (clone_dc (tail n)) ! unat (k - 1)) else Inl EMPTY)"
        using Some False t by (intro "1.IH") simp_all
      finally show ?thesis
        using Some k by (simp add: elems_clone_dc elems_Some)
    qed
  qed
qed

lemma subscript_sh_elems:
  "subscript_sh xs k = (if unat k < length (elems xs) then Inr (elems xs ! unat k) else Inl EMPTY)"
proof (induction xs k rule: subscript_sh.induct)
  case (1 k)
  then show ?case by simp
next
  case (2 x n k)
  then show ?case
    by (cases "k = 0") (simp_all add: unat_pred)
qed

text \<open>
  C9: \<^verbatim>\<open>xs[k]\<close> is zero-based. For \<open>k\<close> below the number of elements of \<open>xs\<close> it returns
  the element at position \<open>k\<close>; for every other \<open>k\<close> the recursion reaches the empty
  list and throws the constant \<^verbatim>\<open>EMPTY\<close>, on any list, and that is the only failure
  there is. Both variants that define \<^verbatim>\<open>operator[]\<close> behave so.
\<close>

theorem subscript_zero_based:
  "(unat k < length (elems xs) \<longrightarrow>
      subscript_dc xs k = Inr (elems xs ! unat k) \<and> subscript_sh xs k = Inr (elems xs ! unat k))
   \<and> (length (elems xs) \<le> unat k \<longrightarrow>
      subscript_dc xs k = Inl EMPTY \<and> subscript_sh xs k = Inl EMPTY)"
  by (simp add: subscript_dc_elems subscript_sh_elems)

theorem subscript_zero_based_witness:
  "unat (1 :: unsigned) < length (elems (Some (Node (10::int) (Some (Node 20 None)))))
   \<and> subscript_dc (Some (Node (10::int) (Some (Node 20 None)))) 1 = Inr 20
   \<and> subscript_sh (Some (Node (10::int) (Some (Node 20 None)))) 1 = Inr 20
   \<and> length (elems (Some (Node (10::int) (Some (Node 20 None))))) \<le> unat (2 :: unsigned)
   \<and> subscript_dc (Some (Node (10::int) (Some (Node 20 None)))) 2 = Inl EMPTY
   \<and> subscript_sh (Some (Node (10::int) (Some (Node 20 None)))) 2 = Inl EMPTY"
  using subscript_zero_based [of 1 "Some (Node (10::int) (Some (Node 20 None)))"]
    subscript_zero_based [of 2 "Some (Node (10::int) (Some (Node 20 None)))"]
  by simp

section \<open>Properties of the reference-counted lists\<close>

text \<open>
  C3, as stated, says that the error raised on an empty list carries which operation was
  invoked. In \<^verbatim>\<open>ImmutableList.hpp\<close> the four operations throw the list they were given:
  on the empty list each of them throws the same value, the null pointer, and nothing
  in it names the operation.
\<close>

theorem thrown_list_names_no_operation_counterexample:
  "head_sp (EMPTY :: int List) = Inl EMPTY \<and> tail_sp (EMPTY :: int List) = Inl EMPTY
   \<and> last_sp (EMPTY :: int List) = Inl EMPTY \<and> init_sp (EMPTY :: int List) = Inl EMPTY"
  by (simp add: EMPTY_def head_sp_def tail_sp_def)

text \<open>
  C3, amended: on every empty list each of \<^verbatim>\<open>head\<close>, \<^verbatim>\<open>tail\<close>, \<^verbatim>\<open>last\<close> and \<^verbatim>\<open>init\<close>
  fails. In \<^verbatim>\<open>ImmutableList.hpp\<close> the value thrown is the empty list itself, the same for
  the four operations. In the class \<^verbatim>\<open>list\<close> the error is a \<^verbatim>\<open>std::domain_error\<close> whose
  message names the operation and says that the list was empty, whatever the store
  holds; \<^verbatim>\<open>last\<close> and \<^verbatim>\<open>init\<close> return it at their first step.
\<close>

theorem empty_list_violation:
  "head_sp EMPTY = Inl EMPTY \<and> tail_sp EMPTY = Inl EMPTY
   \<and> last_sp EMPTY = Inl EMPTY \<and> init_sp EMPTY = Inl EMPTY
   \<and> head_rc h None = Inl (domain_error ''prelude::head: empty list'')
   \<and> tail_rc h None = Inl (domain_error ''prelude::tail: empty list'')
   \<and> last_rc (Suc fuel) h None = Some (Inl (domain_error ''prelude::last: empty list''))
   \<and> init_rc (Suc fuel) h None = Some (Inl (domain_error ''prelude::init: empty list''))"
  by (simp add: EMPTY_def head_sp_def tail_sp_def head_rc_def tail_rc_def)

text \<open>
  C10: copy-assigning a list from a source that holds the same \<^verbatim>\<open>_rep\<close>, self-assignment
  included, is a no-op: neither \<^verbatim>\<open>release\<close> nor \<^verbatim>\<open>acquire\<close> runs, so the store, with
  every reference count in it, and the \<^verbatim>\<open>_rep\<close> of the list are as before.
\<close>

theorem copy_assign_rc_same_rep: "copy_assign_rc h xs xs = Inr (h, xs)"
  by (simp add: copy_assign_rc_def)

text \<open>
  What the guard avoids: without it, a list that is the only owner of its node would
  release the node, which frees it, and then acquire the freed node.
\<close>

lemma release_then_acquire_sole_owner:
  "and_then (release [Some \<lparr>n_refs = 1, n_head = x, n_tail = None\<rparr>] (Some 0))
     (\<lambda>h1. acquire h1 (Some 0)) = Inl bad_pointer"
  by (simp add: lookup_def acquire_def)

text \<open>
  The store of three nodes used below is what the constructors build for
  \<^verbatim>\<open>a = cons(1, cons(2, empty))\<close>, a copy \<^verbatim>\<open>b = a\<close> and \<^verbatim>\<open>ys = cons(3, empty)\<close>: \<open>a\<close> and
  \<open>b\<close> both hold the node at address 1, whose count is 2.
\<close>

lemma shared_list_built:
  "and_then (cons_rc [] (2::int) None) (\<lambda>(h1, t).
   and_then (cons_body_rc h1 1 t) (\<lambda>(h2, a).
   and_then (acquire h2 a) (\<lambda>h3.
   and_then (cons_rc h3 3 None) (\<lambda>(h4, ys). Inr (h4, a, ys)))))
   = Inr ([Some \<lparr>n_refs = 1, n_head = 2, n_tail = None\<rparr>,
           Some \<lparr>n_refs = 2, n_head = 1, n_tail = Some 0\<rparr>,
           Some \<lparr>n_refs = 1, n_head = 3, n_tail = None\<rparr>], Some 1, Some 2)"
  by (simp add: cons_rc_def cons_body_rc_def list_cons_def acquire_def lookup_def)

text \<open>
  The move version of \<^verbatim>\<open>append\<close> in the draft never returns a list for a non-empty
  \<open>xs\<close>: its loop ends with \<open>to\<close> null, and the assignment that follows writes through
  the null pointer.
\<close>

lemma walk_off_draft_null:
  "walk_off_draft fuel h to = Some (Inr r) \<Longrightarrow> r = None"
  by (induction fuel h to rule: walk_off_draft.induct) (auto split: sum.splits if_splits)

lemma append_move_draft_never_splices:
  "xs \<noteq> None \<Longrightarrow> append_move_draft fuel h xs ys \<noteq> Some (Inr r)"
proof
  assume xs: "xs \<noteq> None" and run: "append_move_draft fuel h xs ys = Some (Inr r)"
  from run obtain h1 b where n: "null_rc h xs = Inr (h1, b)"
    by (auto simp: append_move_draft_def split: sum.splits)
  from n xs have "\<not> b"
    by (auto simp: null_rc_def and_then_def split: sum.splits)
  with run n obtain w where w: "walk_off_draft fuel h1 xs = Some w"
    and r: "and_then w (\<lambda>to. and_then (set_tail h1 to ys) (\<lambda>h2. Inr (h2, xs, None))) = Inr r"
    by (auto simp: append_move_draft_def split: option.splits)
  from r obtain to where "w = Inr to" and s: "and_then (set_tail h1 to ys) (\<lambda>h2. Inr (h2, xs, None)) = Inr r"
    by (cases w) simp_all
  with w have "to = None"
    by (auto dest: walk_off_draft_null)
  with s show False
    by (simp add: set_tail_def)
qed

text \<open>
  C1: the in-place splice of \<^verbatim>\<open>append\<close> writes to the \<^verbatim>\<open>_tail\<close> of an existing node only
  after checking that the spliced list is uniquely owned, so appending never changes a
  list that another handle reaches. \<^verbatim>\<open>operator+ ( list<A> && xs, list<A> const& ys )\<close>
  checks no count. With \<open>a = [1, 2]\<close>, a copy \<open>b\<close> of \<open>a\<close> and \<open>ys = [3]\<close>,
  \<^verbatim>\<open>std::move(b) + ys\<close> writes to the last node of the chain that \<open>a\<close> holds too, whose
  first node has count 2, and \<open>a\<close> reads \<open>[1, 2, 3]\<close> afterwards.
\<close>

theorem append_move_rc_changes_shared_list:
  "values_rc 3 [Some \<lparr>n_refs = 1, n_head = 2 :: int, n_tail = None\<rparr>,
                Some \<lparr>n_refs = 2, n_head = 1, n_tail = Some 0\<rparr>,
                Some \<lparr>n_refs = 1, n_head = 3, n_tail = None\<rparr>] (Some 1) = Some [1, 2]
   \<and> append_move_rc 3 [Some \<lparr>n_refs = 1, n_head = 2 :: int, n_tail = None\<rparr>,
                Some \<lparr>n_refs = 2, n_head = 1, n_tail = Some 0\<rparr>,
                Some \<lparr>n_refs = 1, n_head = 3, n_tail = None\<rparr>] (Some 1) (Some 2)
      = Some (Inr ([Some \<lparr>n_refs = 1, n_head = 2, n_tail = Some 2\<rparr>,
                    Some \<lparr>n_refs = 2, n_head = 1, n_tail = Some 0\<rparr>,
                    Some \<lparr>n_refs = 2, n_head = 3, n_tail = None\<rparr>], Some 1, None))
   \<and> values_rc 3 [Some \<lparr>n_refs = 1, n_head = 2 :: int, n_tail = Some 2\<rparr>,
                    Some \<lparr>n_refs = 2, n_head = 1, n_tail = Some 0\<rparr>,
                    Some \<lparr>n_refs = 2, n_head = 3, n_tail = None\<rparr>] (Some 1) = Some [1, 2, 3]"
  by (simp add: numeral_3_eq_3 lookup_def append_move_rc_def null_rc_def acquire_def
      deref_def set_tail_def)

section \<open>What \<^verbatim>\<open>tail\<close> does to its argument\<close>

text \<open>A reference count is not part of the values that a list holds.\<close>

lemma values_rc_count_irrelevant:
  assumes "lookup h a = Some c"
  shows "values_rc fuel (h[a := Some (c\<lparr>n_refs := r\<rparr>)]) q = values_rc fuel h q"
proof (induction fuel arbitrary: q)
  case 0
  then show ?case by (cases q) simp_all
next
  case (Suc fuel)
  show ?case
  proof (cases q)
    case None
    then show ?thesis by simp
  next
    case (Some b)
    from assms have "a < length h"
      by (auto dest: lookup_SomeD)
    with assms Some Suc show ?thesis
      by (cases "b = a") (simp_all split: option.splits)
  qed
qed

lemma acquire_values:
  "acquire h n = Inr h' \<Longrightarrow> length h' = length h \<and> values_rc fuel h' q = values_rc fuel h q"
  by (auto simp: acquire_def values_rc_count_irrelevant split: option.splits)

text \<open>
  \<^verbatim>\<open>tail\<close> of the class \<^verbatim>\<open>list\<close>, on a list whose first node has a count that is
  neither zero nor the largest \<^verbatim>\<open>size_t\<close>: all it does to the store is to acquire the
  second node, which it returns. It allocates nothing and every list reads as before.
\<close>

lemma tail_rc_shares:
  assumes look: "lookup h a = Some c" and nz: "n_refs c \<noteq> 0" and nw: "n_refs c + 1 \<noteq> 0"
  shows "tail_rc h (Some a) = and_then (acquire h (n_tail c)) (\<lambda>h'. Inr (h', n_tail c))"
proof -
  from look have a: "a < length h" and ha: "h ! a = Some c"
    by (auto dest: lookup_SomeD)
  define c1 where "c1 = c\<lparr>n_refs := n_refs c + 1\<rparr>"
  define h1 where "h1 = h[a := Some c1]"
  have t1: "n_tail c1 = n_tail c"
    by (simp add: c1_def)
  have acq: "acquire h (Some a) = Inr h1"
    using look by (simp add: acquire_def h1_def c1_def)
  have l1: "lookup h1 a = Some c1"
    using a by (simp add: h1_def)
  have null: "null_rc h1 (Some a) = Inr (h1, False)"
    using a nw by (simp add: null_rc_def acquire_def l1 h1_def c1_def add.commute)
  have der: "deref h1 (Some a) = Inr c1"
    by (simp add: deref_def l1)
  have unfold: "tail_rc h (Some a)
      = and_then (acquire h1 (n_tail c))
          (\<lambda>h3. and_then (release h3 (Some a)) (\<lambda>h4. Inr (h4, n_tail c)))"
    by (simp add: tail_rc_def acq null der t1 del: release.simps)
  show ?thesis
  proof (cases "n_tail c")
    case None
    have "release h1 (Some a) = Inr h"
      using a nz ha by (simp add: l1 c1_def h1_def list_update_same_conv)
    with None show ?thesis
      unfolding unfold by (simp del: release.simps)
  next
    case (Some b)
    show ?thesis
    proof (cases "b = a")
      case True
      have "acquire h1 (Some a) = Inr (h[a := Some (c\<lparr>n_refs := n_refs c + 2\<rparr>)])"
        using a by (simp add: acquire_def l1 h1_def c1_def add.assoc)
      moreover have "release (h[a := Some (c\<lparr>n_refs := n_refs c + 2\<rparr>)]) (Some a) = Inr h1"
        using a nw by (simp add: h1_def c1_def add.commute)
      moreover have "acquire h (Some a) = Inr h1"
        by (rule acq)
      ultimately show ?thesis
        unfolding unfold using Some True by (simp del: release.simps)
    next
      case False
      show ?thesis
      proof (cases "lookup h b")
        case None
        then have "acquire h1 (Some b) = Inl bad_pointer" "acquire h (Some b) = Inl bad_pointer"
          using False by (simp_all add: acquire_def h1_def)
        with \<open>n_tail c = Some b\<close> show ?thesis
          unfolding unfold by (simp del: release.simps)
      next
        case (Some d)
        then have b: "b < length h"
          by (auto dest: lookup_SomeD)
        have "acquire h1 (Some b) = Inr (h1[b := Some (d\<lparr>n_refs := n_refs d + 1\<rparr>)])"
          using False Some by (simp add: acquire_def h1_def)
        moreover have "release (h1[b := Some (d\<lparr>n_refs := n_refs d + 1\<rparr>)]) (Some a)
            = Inr (h[b := Some (d\<lparr>n_refs := n_refs d + 1\<rparr>)])"
          using False a b nz ha l1
          by (simp add: h1_def c1_def list_update_swap [of a b] list_update_same_conv)
        moreover have "acquire h (Some b) = Inr (h[b := Some (d\<lparr>n_refs := n_refs d + 1\<rparr>)])"
          using Some by (simp add: acquire_def)
        ultimately show ?thesis
          unfolding unfold using \<open>n_tail c = Some b\<close> by (simp del: release.simps)
      qed
    qed
  qed
qed

lemma tail_rc_keeps_lists:
  assumes "lookup h a = Some c" and "n_refs c \<noteq> 0" and "n_refs c + 1 \<noteq> 0"
    and "tail_rc h (Some a) = Inr (h', t)"
  shows "t = n_tail c \<and> length h' = length h \<and> values_rc fuel h' q = values_rc fuel h q"
proof -
  from assms have "and_then (acquire h (n_tail c)) (\<lambda>h'. Inr (h', n_tail c)) = Inr (h', t)"
    by (simp add: tail_rc_shares)
  then have "acquire h (n_tail c) = Inr h'" and "t = n_tail c"
    by (auto simp: and_then_def split: sum.splits)
  then show ?thesis
    by (simp add: acquire_values)
qed

lemma tail_rc_on_pair:
  "tail_rc [Some \<lparr>n_refs = 1, n_head = 2 :: int, n_tail = None\<rparr>,
            Some \<lparr>n_refs = 1, n_head = 1, n_tail = Some 0\<rparr>] (Some 1)
   = Inr ([Some \<lparr>n_refs = 2, n_head = 2, n_tail = None\<rparr>,
           Some \<lparr>n_refs = 1, n_head = 1, n_tail = Some 0\<rparr>], Some 0)"
  by (simp add: tail_rc_def null_rc_def acquire_def deref_def lookup_def)

text \<open>
  C2: no operation writes to an existing node after its construction; in particular, for
  every non-empty \<open>xs\<close>, \<^verbatim>\<open>tail(xs)\<close> returns a handle that shares the rest of \<open>xs\<close>,
  creates no node, and leaves \<open>xs\<close> unchanged. \<^verbatim>\<open>tail\<close> of the first part of
  \<^verbatim>\<open>ListTransparentMove.hpp\<close> moves the field \<^verbatim>\<open>_tail\<close> out of the node: on \<open>xs = [1, 2]\<close>
  it returns the node of \<open>2\<close> and leaves the \<^verbatim>\<open>_tail\<close> of the node of \<open>1\<close> null, so
  \<open>xs\<close> reads \<open>[1]\<close> afterwards.
\<close>

theorem tail_mv_truncates_argument:
  "values_rc 2 [Some \<lparr>n_refs = 1, n_head = 2 :: int, n_tail = None\<rparr>,
                Some \<lparr>n_refs = 1, n_head = 1, n_tail = Some 0\<rparr>] (Some 1) = Some [1, 2]
   \<and> tail_mv [Some \<lparr>n_refs = 1, n_head = 2 :: int, n_tail = None\<rparr>,
                Some \<lparr>n_refs = 1, n_head = 1, n_tail = Some 0\<rparr>] (Some 1)
      = Inr ([Some \<lparr>n_refs = 1, n_head = 2, n_tail = None\<rparr>,
              Some \<lparr>n_refs = 1, n_head = 1, n_tail = None\<rparr>], Some 0)
   \<and> values_rc 2 [Some \<lparr>n_refs = 1, n_head = 2 :: int, n_tail = None\<rparr>,
              Some \<lparr>n_refs = 1, n_head = 1, n_tail = None\<rparr>] (Some 1) = Some [1]"
  by (simp add: numeral_2_eq_2 lookup_def tail_mv_def)

end
